theory Spec2Isabelle
  imports Main "HOL-Library.Option_ord" "HOL-Library.List_Lexorder" "HOL-Library.Char_ord"
    "HOL-Library.Product_Lexorder"
begin

section \<open>Data model (src/database/models.py, src/schemas.py)\<close>

text \<open>
  A Python \<open>str\<close> is a sequence of Unicode code points. \<open>str\<close> turns a literal of
  ASCII characters into one.
\<close>

type_synonym str = "nat list"

definition str :: "string \<Rightarrow> str" where
  "str s = map of_char s"

text \<open>
  A Python \<open>datetime\<close>: the seven fields of the class and \<open>tzinfo\<close>, here the offset
  from UTC in minutes (\<open>utcoffset()\<close>), \<open>None\<close> for a naive value. \<open>datetime.today()\<close> and
  the values read from a \<open>DateTime\<close> column are naive; the \<open>birthday\<close> of a request body
  may be aware (\<open>birthday: datetime\<close> accepts \<open>2000-03-01T00:30+02:00\<close>). A well-formed
  value satisfies \<open>valid_datetime\<close> (section on dates).
\<close>

record datetime =
  year :: nat
  month :: nat
  day :: nat
  hour :: nat
  minute :: nat
  second :: nat
  microsecond :: nat
  tzinfo :: "int option"

text \<open>
  \<open>class User(Base)\<close>: the columns of table \<open>users\<close>. The field names carry the
  suffix \<open>_User\<close> where they would clash with a field of \<open>Contact\<close> or with a constant
  of HOL (\<open>id\<close>).
\<close>

record User =
  id_User :: int
  username :: str
  email_User :: str
  password :: str
  refresh_token :: "str option"
  avatar :: "str option"
  confirmed :: bool

text \<open>
  \<open>class ContactModel(BaseModel)\<close>: the request body of create and update.
\<close>

record ContactModel =
  firstname :: str
  lastname :: str
  birthday :: datetime
  phone :: str
  email :: str
  notes_Contact :: str

text \<open>
  \<open>class Contact(Base)\<close>: a row of table \<open>contacts\<close>. It has the six fields of the
  body (the record extends \<open>ContactModel\<close>, as \<open>Contact(**body.dict(), user_id=user.id)\<close>
  builds it) and the columns the database fills in: the primary key \<open>id\<close>, the nullable
  foreign key \<open>user_id\<close>, and the two nullable timestamps. Timestamps of the database
  server (\<open>func.now()\<close>) are natural numbers, the ticks of the server's clock.
\<close>

record Contact = ContactModel +
  id_Contact :: int
  user_id :: "int option"
  created_at :: "nat option"
  updated_at :: "nat option"

text \<open>
  The lower-casing of the database's locale (its \<open>lc_ctype\<close>, which \<open>ILIKE\<close> applies to
  both of its arguments) is a setting of the server, not of the repository: any function
  on strings that neither removes nor brings in one of the three characters that mean
  something in a \<open>LIKE\<close> pattern, \<open>%\<close>, the backslash and \<open>_\<close>, none of which is a letter.
\<close>

typedef ctype =
  "{L :: str \<Rightarrow> str. \<forall>s. \<forall>m \<in> {0x25, 0x5C, 0x5F}. m \<in> set (L s) \<longleftrightarrow> m \<in> set s}"
  morphisms lower Abs_ctype
proof
  show "(\<lambda>s. s) \<in>
    {L :: str \<Rightarrow> str. \<forall>s. \<forall>m \<in> {0x25, 0x5C, 0x5F}. m \<in> set (L s) \<longleftrightarrow> m \<in> set s}"
    by simp
qed

text \<open>
  The database behind a \<open>Session\<close>: the two tables as lists of rows, the sequence that
  numbers new contacts (\<open>contacts_id_seq\<close>, the serial primary key), the number of
  commits made so far, and two settings of the server: the lower-casing of its locale
  and the session's time zone. The time zone is given as the function that takes a
  timezone-aware datetime to the wall-clock time of the same instant in that zone,
  which is what a column \<open>DateTime\<close> (a timestamp without time zone) keeps of it.
\<close>

record Session =
  users :: "User list"
  contacts :: "Contact list"
  contacts_id_seq :: int
  commits :: nat
  lc_ctype :: ctype
  TimeZone :: "datetime \<Rightarrow> datetime"

text \<open>
  What an operation can raise: the two \<open>HTTPException\<close>s of the routes, the rejection of
  a path parameter by \<open>Path(ge=1)\<close>, a constraint violation reported by the database,
  \<open>ValueError\<close> (of Python's \<open>datetime\<close>, and of the database driver for a string with a
  NUL character), \<open>OverflowError\<close> and \<open>TypeError\<close> of \<open>datetime\<close>.
\<close>

datatype error =
    HTTP_404_NOT_FOUND
  | HTTP_409_CONFLICT
  | RequestValidationError
  | IntegrityError
  | ValueError
  | OverflowError
  | TypeError

section \<open>Queries (src/repository/contacts.py)\<close>

text \<open>
  \<open>db.query(Contact).join(User)\<close>: the inner join of the two tables on the foreign key
  \<open>contacts.user_id = users.id\<close>. A contact whose \<open>user_id\<close> is NULL joins with no row.
\<close>

definition query_Contact_join_User :: "Session \<Rightarrow> (Contact \<times> User) list" where
  "query_Contact_join_User db =
     concat (map (\<lambda>c. map (\<lambda>u. (c, u))
                          (filter (\<lambda>u. user_id c = Some (id_User u)) (users db)))
                 (contacts db))"

text \<open>\<open>Query.first()\<close>: the first row of the result, or \<open>None\<close>.\<close>

definition first :: "'a list \<Rightarrow> 'a option" where
  "first rows = (case rows of [] \<Rightarrow> None | r # _ \<Rightarrow> Some r)"

text \<open>\<open>Query.all()\<close> of a query for \<open>Contact\<close>: the contacts of the rows.\<close>

definition all_Contact :: "(Contact \<times> User) list \<Rightarrow> Contact list" where
  "all_Contact rows = map fst rows"

definition get_contacts :: "Session \<Rightarrow> User \<Rightarrow> Contact list" where
  "get_contacts db user =
     all_Contact (filter (\<lambda>(c, u). id_User u = id_User user) (query_Contact_join_User db))"

definition get_contact_by_id :: "Session \<Rightarrow> User \<Rightarrow> int \<Rightarrow> Contact option" where
  "get_contact_by_id db user contact_id =
     first (all_Contact
       (filter (\<lambda>(c, u). id_Contact c = contact_id \<and> id_User u = id_User user)
               (query_Contact_join_User db)))"

section \<open>Update and remove (src/repository/contacts.py)\<close>

text \<open>
  What the database keeps of a datetime bound to a \<open>DateTime\<close> column: a naive value
  as it is, an aware value as the naive wall-clock time in the session's time zone.
\<close>

definition bind_DateTime :: "Session \<Rightarrow> datetime \<Rightarrow> datetime" where
  "bind_DateTime db dt = (if tzinfo dt = None then dt else (TimeZone db dt)\<lparr>tzinfo := None\<rparr>)"

text \<open>
  \<open>update\<close>: fetch the contact scoped by owner; if there is one, assign the six fields
  of the body (\<open>assign_body\<close>) and commit. The flush writes
  \<open>UPDATE contacts SET ... WHERE id = ?\<close> with the attributes that changed; the column
  \<open>updated_at\<close> has \<open>onupdate=func.now()\<close>, which the ORM adds to the statement it emits.
  It emits none when no attribute has a net change, so a body equal to the stored fields
  leaves the row, and its \<open>updated_at\<close>, as they were. The driver refuses a string with a
  NUL character (code point 0) among the values it has to send: \<open>db.commit()\<close> raises
  \<open>ValueError\<close> and nothing is written. \<open>func_now\<close> is the reading of the server's clock
  in this transaction.
\<close>

definition assign_body :: "ContactModel \<Rightarrow> Contact \<Rightarrow> Contact" where
  "assign_body body contact =
     contact\<lparr>firstname := firstname body,
             lastname := lastname body,
             phone := phone body,
             email := email body,
             birthday := birthday body,
             notes_Contact := notes_Contact body\<rparr>"

definition changed_NUL :: "ContactModel \<Rightarrow> Contact \<Rightarrow> bool" where
  "changed_NUL body contact =
     ((firstname body \<noteq> firstname contact \<and> 0 \<in> set (firstname body))
      \<or> (lastname body \<noteq> lastname contact \<and> 0 \<in> set (lastname body))
      \<or> (phone body \<noteq> phone contact \<and> 0 \<in> set (phone body))
      \<or> (email body \<noteq> email contact \<and> 0 \<in> set (email body))
      \<or> (notes_Contact body \<noteq> notes_Contact contact \<and> 0 \<in> set (notes_Contact body)))"

definition flush_update :: "Session \<Rightarrow> nat \<Rightarrow> ContactModel \<Rightarrow> Contact \<Rightarrow> Contact" where
  "flush_update db func_now body row =
     (if assign_body body row = row then row
      else (assign_body body row)\<lparr>birthday := bind_DateTime db (birthday body),
                                  updated_at := Some func_now\<rparr>)"

definition update ::
  "Session \<Rightarrow> nat \<Rightarrow> User \<Rightarrow> int \<Rightarrow> ContactModel \<Rightarrow> (error + Contact option) \<times> Session" where
  "update db func_now user contact_id body =
     (case get_contact_by_id db user contact_id of
        None \<Rightarrow> (Inr None, db)
      | Some contact \<Rightarrow>
          if changed_NUL body contact then (Inl ValueError, db)
          else
            (Inr (Some (flush_update db func_now body contact)),
             db\<lparr>contacts :=
                   map (\<lambda>row. if id_Contact row = id_Contact contact
                               then flush_update db func_now body row else row)
                       (contacts db),
                commits := commits db + 1\<rparr>))"

text \<open>
  \<open>remove\<close>: fetch the contact scoped by owner; if there is one, \<open>db.delete\<close> it
  (\<open>DELETE FROM contacts WHERE id = ?\<close>) and commit.
\<close>

definition remove :: "Session \<Rightarrow> User \<Rightarrow> int \<Rightarrow> Contact option \<times> Session" where
  "remove db user contact_id =
     (case get_contact_by_id db user contact_id of
        None \<Rightarrow> (None, db)
      | Some contact \<Rightarrow>
          (Some contact,
           db\<lparr>contacts := filter (\<lambda>row. id_Contact row \<noteq> id_Contact contact) (contacts db),
              commits := commits db + 1\<rparr>))"

section \<open>Routes (src/routes/contacts.py)\<close>

text \<open>
  Each route checks its path parameter (\<open>contact_id: int = Path(ge=1)\<close>), calls the
  repository and turns \<open>None\<close> into a 404; an exception of the repository passes
  through.
\<close>

definition get_contact :: "int \<Rightarrow> Session \<Rightarrow> User \<Rightarrow> error + Contact" where
  "get_contact contact_id db current_user =
     (if \<not> 1 \<le> contact_id then Inl RequestValidationError
      else case get_contact_by_id db current_user contact_id of
             None \<Rightarrow> Inl HTTP_404_NOT_FOUND
           | Some contact \<Rightarrow> Inr contact)"

definition update_contact ::
  "ContactModel \<Rightarrow> int \<Rightarrow> Session \<Rightarrow> nat \<Rightarrow> User \<Rightarrow> (error + Contact) \<times> Session" where
  "update_contact body contact_id db func_now current_user =
     (if \<not> 1 \<le> contact_id then (Inl RequestValidationError, db)
      else case update db func_now current_user contact_id body of
             (Inl e, db') \<Rightarrow> (Inl e, db')
           | (Inr None, db') \<Rightarrow> (Inl HTTP_404_NOT_FOUND, db')
           | (Inr (Some contact), db') \<Rightarrow> (Inr contact, db'))"

definition remove_contact :: "int \<Rightarrow> Session \<Rightarrow> User \<Rightarrow> (error + Contact) \<times> Session" where
  "remove_contact contact_id db current_user =
     (if \<not> 1 \<le> contact_id then (Inl RequestValidationError, db)
      else case remove db current_user contact_id of
             (None, db') \<Rightarrow> (Inl HTTP_404_NOT_FOUND, db')
           | (Some contact, db') \<Rightarrow> (Inr contact, db'))"

section \<open>Case-insensitive pattern matching (\<open>Column.ilike\<close>)\<close>

text \<open>
  \<open>Contact.email.ilike(email)\<close> is SQL's \<open>contacts.email ILIKE :email\<close>: the argument is
  a pattern, in which \<open>%\<close> (code point 0x25) stands for any run of characters, \<open>_\<close> (0x5F)
  for any one character, and a backslash (0x5C) makes the next character literal. The
  database puts both sides in lower case, by its locale, and matches the results. A
  pattern that ends in a lone backslash, which the database rejects when the match
  reaches it, matches nothing here; the theorems about emails exclude the backslash, as
  \<open>EmailStr\<close> does.
\<close>

fun like :: "str \<Rightarrow> str \<Rightarrow> bool" where
  "like s [] = (s = [])"
| "like s (p # ps) =
     (if p = 0x25 then
        like s ps \<or> (case s of [] \<Rightarrow> False | _ # ss \<Rightarrow> like ss (p # ps))
      else if p = 0x5F then
        (case s of [] \<Rightarrow> False | _ # ss \<Rightarrow> like ss ps)
      else if p = 0x5C then
        (case ps of
           [] \<Rightarrow> False
         | q # qs \<Rightarrow> (case s of [] \<Rightarrow> False | c # ss \<Rightarrow> c = q \<and> like ss qs))
      else
        (case s of [] \<Rightarrow> False | c # ss \<Rightarrow> c = p \<and> like ss ps))"

definition ilike :: "ctype \<Rightarrow> str \<Rightarrow> str \<Rightarrow> bool" where
  "ilike L s pattern = like (lower L s) (lower L pattern)"

text \<open>
  Two locales for the examples: one that folds the letters A to Z only (as the locale
  \<open>C\<close> does), and one that also folds the capital letters of Latin-1 (0xC0 to 0xDE,
  without the multiplication sign 0xD7).
\<close>

definition lower_ascii :: "nat \<Rightarrow> nat" where
  "lower_ascii c = (if 0x41 \<le> c \<and> c \<le> 0x5A then c + 0x20 else c)"

definition lower_latin1 :: "nat \<Rightarrow> nat" where
  "lower_latin1 c =
     (if (0x41 \<le> c \<and> c \<le> 0x5A) \<or> (0xC0 \<le> c \<and> c \<le> 0xDE \<and> c \<noteq> 0xD7) then c + 0x20
      else c)"

definition C_ctype :: ctype where
  "C_ctype = Abs_ctype (map lower_ascii)"

definition Latin1_ctype :: ctype where
  "Latin1_ctype = Abs_ctype (map lower_latin1)"

section \<open>Creating a contact (src/repository/contacts.py, src/routes/contacts.py)\<close>

text \<open>
  \<open>get_contact_by_email\<close>: the first contact of the user whose email matches the
  argument, as a pattern, without regard to case. The driver refuses an argument with a
  NUL character: \<open>ValueError\<close>.
\<close>

definition get_contact_by_email :: "Session \<Rightarrow> User \<Rightarrow> str \<Rightarrow> error + Contact option" where
  "get_contact_by_email db user email' =
     (if 0 \<in> set email' then Inl ValueError
      else Inr (first (all_Contact
        (filter (\<lambda>(c, u). ilike (lc_ctype db) (email c) email' \<and> id_User u = id_User user)
                (query_Contact_join_User db)))))"

text \<open>
  \<open>create\<close>: build the row from the body and the owner's id, add it, commit and
  reload it. The driver refuses a string with a NUL character: \<open>db.commit()\<close> raises
  \<open>ValueError\<close> before anything is sent. Otherwise the insert draws the id from the
  sequence (the sequence moves on even when the insert fails), the birthday is kept as
  \<open>bind_DateTime\<close> says, the two timestamp columns take their default \<open>func.now()\<close>, and
  the database checks the foreign key \<open>contacts.user_id -> users.id\<close> and the primary
  key; a violation surfaces as \<open>IntegrityError\<close> from \<open>db.commit()\<close>.
\<close>

definition create :: "Session \<Rightarrow> nat \<Rightarrow> User \<Rightarrow> ContactModel \<Rightarrow> (error + Contact) \<times> Session" where
  "create db func_now user body =
     (if 0 \<in> set (firstname body) \<or> 0 \<in> set (lastname body) \<or> 0 \<in> set (phone body)
         \<or> 0 \<in> set (email body) \<or> 0 \<in> set (notes_Contact body)
      then (Inl ValueError, db)
      else
        let new_id = contacts_id_seq db;
            db_seq = db\<lparr>contacts_id_seq := new_id + 1\<rparr>;
            contact = \<lparr>firstname = firstname body, lastname = lastname body,
                       birthday = bind_DateTime db (birthday body), phone = phone body,
                       email = email body, notes_Contact = notes_Contact body,
                       id_Contact = new_id, user_id = Some (id_User user),
                       created_at = Some func_now, updated_at = Some func_now\<rparr>
        in if id_User user \<notin> set (map id_User (users db))
              \<or> new_id \<in> set (map id_Contact (contacts db))
           then (Inl IntegrityError, db_seq)
           else (Inr contact,
                 db_seq\<lparr>contacts := contacts db @ [contact], commits := commits db + 1\<rparr>))"

text \<open>
  The route \<open>create_contact\<close>: look for a contact of the caller matching the body's
  email; if there is one, 409, otherwise create.
\<close>

definition create_contact ::
  "ContactModel \<Rightarrow> Session \<Rightarrow> nat \<Rightarrow> User \<Rightarrow> (error + Contact) \<times> Session" where
  "create_contact body db func_now current_user =
     (case get_contact_by_email db current_user (email body) of
        Inl e \<Rightarrow> (Inl e, db)
      | Inr (Some contact) \<Rightarrow> (Inl HTTP_409_CONFLICT, db)
      | Inr None \<Rightarrow> create db func_now current_user body)"

section \<open>Constraints of table \<open>contacts\<close> (src/database/models.py)\<close>

text \<open>
  The primary key of table \<open>contacts\<close> (\<open>Column(Integer, primary_key=True)\<close>): no two
  rows share an id.
\<close>

definition pk_contacts :: "Session \<Rightarrow> bool" where
  "pk_contacts db = distinct (map id_Contact (contacts db))"

text \<open>
  The sequence is ahead of every id in the table, as it is when all ids were drawn
  from it.
\<close>

definition seq_contacts :: "Session \<Rightarrow> bool" where
  "seq_contacts db = (\<forall>c \<in> set (contacts db). id_Contact c < contacts_id_seq db)"

section \<open>Dates (Python's \<open>datetime\<close>, PostgreSQL's \<open>to_char\<close>)\<close>

text \<open>
  The calendar of Python's \<open>datetime\<close> module: \<open>_is_leap\<close>, \<open>_days_in_month\<close> and the
  range check of a date's fields (\<open>_check_date_fields\<close>), which raises \<open>ValueError\<close>.
\<close>

definition is_leap :: "nat \<Rightarrow> bool" where
  "is_leap y = (y mod 4 = 0 \<and> (y mod 100 \<noteq> 0 \<or> y mod 400 = 0))"

definition days_in_month :: "nat \<Rightarrow> nat \<Rightarrow> nat" where
  "days_in_month y m =
     (if m = 2 then (if is_leap y then 29 else 28)
      else if m = 4 \<or> m = 6 \<or> m = 9 \<or> m = 11 then 30 else 31)"

definition check_date_fields :: "nat \<Rightarrow> nat \<Rightarrow> nat \<Rightarrow> bool" where
  "check_date_fields y m d =
     (1 \<le> y \<and> y \<le> 9999 \<and> 1 \<le> m \<and> m \<le> 12 \<and> 1 \<le> d \<and> d \<le> days_in_month y m)"

text \<open>
  \<open>today + timedelta(days=7)\<close>: the date moves on day by day, the time of day stays;
  a result after year 9999 raises \<open>OverflowError\<close>.
\<close>

definition next_day :: "datetime \<Rightarrow> datetime" where
  "next_day dt =
     (if day dt < days_in_month (year dt) (month dt) then dt\<lparr>day := day dt + 1\<rparr>
      else if month dt < 12 then dt\<lparr>month := month dt + 1, day := 1\<rparr>
      else dt\<lparr>year := year dt + 1, month := 1, day := 1\<rparr>)"

fun add_days :: "nat \<Rightarrow> datetime \<Rightarrow> datetime" where
  "add_days 0 dt = dt"
| "add_days (Suc n) dt = add_days n (next_day dt)"

definition plus_timedelta_days :: "datetime \<Rightarrow> nat \<Rightarrow> error + datetime" where
  "plus_timedelta_days dt n =
     (let r = add_days n dt in if 9999 < year r then Inl OverflowError else Inr r)"

text \<open>
  \<open>func.to_char(x, 'MM-DD')\<close>: the month and the day of the month, two decimal digits
  each, with a hyphen between. The database compares the resulting strings as text;
  here by the lexicographic order of the character codes.
\<close>

definition digit :: "nat \<Rightarrow> char" where
  "digit n = char_of (48 + n)"

definition to_char_MM_DD :: "datetime \<Rightarrow> string" where
  "to_char_MM_DD dt =
     [digit (month dt div 10), digit (month dt mod 10), CHR ''-'',
      digit (day dt div 10), digit (day dt mod 10)]"

text \<open>
  \<open>get_next_week_birthday_contacts\<close>; \<open>today\<close> is the value of \<open>datetime.today()\<close>.
\<close>

definition get_next_week_birthday_contacts ::
  "Session \<Rightarrow> datetime \<Rightarrow> User \<Rightarrow> error + Contact list" where
  "get_next_week_birthday_contacts db today user =
     (case plus_timedelta_days today 7 of
        Inl e \<Rightarrow> Inl e
      | Inr next_week \<Rightarrow>
          Inr (all_Contact
            (filter (\<lambda>(c, u). to_char_MM_DD (birthday c) \<ge> to_char_MM_DD today
                             \<and> to_char_MM_DD (birthday c) \<le> to_char_MM_DD next_week
                             \<and> id_User u = id_User user)
                    (query_Contact_join_User db))))"

text \<open>
  The ordinal of a date (\<open>_ymd2ord\<close>; day 1 is 0001-01-01) and the \<open>days\<close> of the
  difference of two datetimes: the difference in microseconds, divided by the
  microseconds of a day, rounded down.
\<close>

definition days_before_year :: "nat \<Rightarrow> int" where
  "days_before_year y = (let z = int y - 1 in z * 365 + z div 4 - z div 100 + z div 400)"

definition days_before_month :: "nat \<Rightarrow> nat \<Rightarrow> int" where
  "days_before_month y m = int (sum_list (map (days_in_month y) [1..<m]))"

definition toordinal :: "datetime \<Rightarrow> int" where
  "toordinal dt =
     days_before_year (year dt) + days_before_month (year dt) (month dt) + int (day dt)"

definition seconds_of_day :: "datetime \<Rightarrow> int" where
  "seconds_of_day dt = int (second dt) + int (minute dt) * 60 + int (hour dt) * 3600"

definition minus_days :: "datetime \<Rightarrow> datetime \<Rightarrow> int" where
  "minus_days a b =
     (((toordinal a - toordinal b) * 86400 + (seconds_of_day a - seconds_of_day b)) * 1000000
        + (int (microsecond a) - int (microsecond b)))
     div (86400 * 1000000)"

text \<open>
  The range check of the time fields (\<open>_check_time_fields\<close>), a well-formed datetime,
  and the microseconds since midnight.
\<close>

definition check_time_fields :: "datetime \<Rightarrow> bool" where
  "check_time_fields dt =
     (hour dt < 24 \<and> minute dt < 60 \<and> second dt < 60 \<and> microsecond dt < 1000000)"

definition valid_datetime :: "datetime \<Rightarrow> bool" where
  "valid_datetime dt =
     (check_date_fields (year dt) (month dt) (day dt) \<and> check_time_fields dt)"

definition microseconds_of_day :: "datetime \<Rightarrow> int" where
  "microseconds_of_day dt = seconds_of_day dt * 1000000 + int (microsecond dt)"

text \<open>
  Naive datetimes compare as the tuples of their fields; \<open>replace(year=...)\<close> and the
  constructor \<open>datetime(y, m, d)\<close> check the date and raise \<open>ValueError\<close>.
\<close>

definition datetime_fields :: "datetime \<Rightarrow> nat \<times> nat \<times> nat \<times> nat \<times> nat \<times> nat \<times> nat" where
  "datetime_fields dt =
     (year dt, month dt, day dt, hour dt, minute dt, second dt, microsecond dt)"

definition replace_year :: "datetime \<Rightarrow> nat \<Rightarrow> error + datetime" where
  "replace_year dt y =
     (if check_date_fields y (month dt) (day dt) then Inr (dt\<lparr>year := y\<rparr>)
      else Inl ValueError)"

definition datetime_ymd :: "nat \<Rightarrow> nat \<Rightarrow> nat \<Rightarrow> error + datetime" where
  "datetime_ymd y m d =
     (if check_date_fields y m d
      then Inr \<lparr>year = y, month = m, day = d, hour = 0, minute = 0, second = 0,
                microsecond = 0, tzinfo = None\<rparr>
      else Inl ValueError)"

text \<open>
  The hybrid property \<open>Contact.days_to_next_birthday\<close> (src/database/models.py). The
  three calls of \<open>datetime.today()\<close> in one evaluation are taken to return the same
  instant, \<open>today\<close>, a naive datetime; comparing an aware birthday with it raises
  \<open>TypeError\<close>.
\<close>

definition days_to_next_birthday :: "Contact \<Rightarrow> datetime \<Rightarrow> error + int" where
  "days_to_next_birthday self today =
     (case replace_year (birthday self) (year today) of
        Inl e \<Rightarrow> Inl e
      | Inr next_birthday \<Rightarrow>
          if tzinfo next_birthday \<noteq> None then Inl TypeError
          else
          (case (if datetime_fields next_birthday < datetime_fields today
                 then datetime_ymd (year next_birthday + 1) (month next_birthday)
                        (day next_birthday)
                 else Inr next_birthday) of
             Inl e \<Rightarrow> Inl e
           | Inr next_birthday' \<Rightarrow> Inr (minus_days next_birthday' today)))"

text \<open>
  The time zone UTC: an aware datetime, whose offset lies within a day, goes to the
  wall-clock time of the same instant at offset 0. The day before 1 January of year 1
  is written as 31 December of year 0.
\<close>

definition prev_day :: "datetime \<Rightarrow> datetime" where
  "prev_day dt =
     (if 1 < day dt then dt\<lparr>day := day dt - 1\<rparr>
      else if 1 < month dt
        then dt\<lparr>month := month dt - 1, day := days_in_month (year dt) (month dt - 1)\<rparr>
      else dt\<lparr>year := year dt - 1, month := 12, day := 31\<rparr>)"

definition UTC :: "datetime \<Rightarrow> datetime" where
  "UTC dt =
     (case tzinfo dt of
        None \<Rightarrow> dt
      | Some offset \<Rightarrow>
          let m = int (hour dt) * 60 + int (minute dt) - offset;
              d = (if m < 0 then prev_day dt else if 1440 \<le> m then next_day dt else dt)
          in d\<lparr>hour := nat ((m mod 1440) div 60), minute := nat ((m mod 1440) mod 60),
               tzinfo := Some 0\<rparr>)"

section \<open>Example data (tests/test_repository_contacts.py)\<close>

text \<open>
  The user and the contact of the repository's tests, a second user, and two states of
  the database: \<open>db2\<close> with no contact yet, and \<open>db1\<close>, which is \<open>db2\<close> after the
  first user created the contact at time 100. The server folds A to Z and its time zone
  is UTC.
\<close>

definition user1 :: User where
  "user1 = \<lparr>id_User = 1, username = str ''test'', email_User = str ''test@test.com'',
            password = str ''secret'', refresh_token = None, avatar = None, confirmed = True\<rparr>"

definition user2 :: User where
  "user2 = \<lparr>id_User = 2, username = str ''other'', email_User = str ''other@test.com'',
            password = str ''secret'', refresh_token = None, avatar = None, confirmed = True\<rparr>"

definition body_taras :: ContactModel where
  "body_taras =
     \<lparr>firstname = str ''Taras'', lastname = str ''Shevchenko'',
      birthday = \<lparr>year = 1814, month = 3, day = 9, hour = 0, minute = 0, second = 0,
                  microsecond = 0, tzinfo = None\<rparr>,
      phone = str ''+380501234567'', email = str ''taras@ukraine.ua'',
      notes_Contact = str ''Kobzar''\<rparr>"

definition body_taras2 :: ContactModel where
  "body_taras2 = body_taras\<lparr>phone := str ''+380509999999''\<rparr>"

definition contact_taras :: Contact where
  "contact_taras =
     \<lparr>firstname = str ''Taras'', lastname = str ''Shevchenko'',
      birthday = \<lparr>year = 1814, month = 3, day = 9, hour = 0, minute = 0, second = 0,
                  microsecond = 0, tzinfo = None\<rparr>,
      phone = str ''+380501234567'', email = str ''taras@ukraine.ua'',
      notes_Contact = str ''Kobzar'',
      id_Contact = 1, user_id = Some 1, created_at = Some 100, updated_at = Some 100\<rparr>"

definition db1 :: Session where
  "db1 = \<lparr>users = [user1, user2], contacts = [contact_taras], contacts_id_seq = 2,
          commits = 1, lc_ctype = C_ctype, TimeZone = UTC\<rparr>"

definition db2 :: Session where
  "db2 = \<lparr>users = [user1, user2], contacts = [], contacts_id_seq = 1, commits = 0,
          lc_ctype = C_ctype, TimeZone = UTC\<rparr>"

definition body_TARAS :: ContactModel where
  "body_TARAS = body_taras\<lparr>firstname := str ''T.'', email := str ''Taras@Ukraine.UA''\<rparr>"

text \<open>
  Dates and contacts for the birthday queries: contacts born on 4 January, on 7 and
  9 June and on 28 December, held by the first user in \<open>db3\<close>, and a contact born on
  29 February.
\<close>

definition dec28 :: datetime where
  "dec28 = \<lparr>year = 2023, month = 12, day = 28, hour = 10, minute = 30, second = 0,
            microsecond = 0, tzinfo = None\<rparr>"

definition jun1 :: datetime where
  "jun1 = \<lparr>year = 2024, month = 6, day = 1, hour = 10, minute = 30, second = 0,
            microsecond = 0, tzinfo = None\<rparr>"

definition contact_jan4 :: Contact where
  "contact_jan4 =
     \<lparr>firstname = str ''Lesya'', lastname = str ''Ukrainka'',
      birthday = \<lparr>year = 1990, month = 1, day = 4, hour = 0, minute = 0, second = 0,
                  microsecond = 0, tzinfo = None\<rparr>,
      phone = str ''+380501112233'', email = str ''lesya@ukraine.ua'',
      notes_Contact = str '''',
      id_Contact = 2, user_id = Some 1, created_at = Some 150, updated_at = Some 150\<rparr>"

definition contact_jun7 :: Contact where
  "contact_jun7 = contact_jan4\<lparr>birthday := (birthday contact_jan4)\<lparr>month := 6, day := 7\<rparr>,
      id_Contact := 3\<rparr>"

definition contact_jun9 :: Contact where
  "contact_jun9 = contact_jan4\<lparr>birthday := (birthday contact_jan4)\<lparr>month := 6, day := 9\<rparr>,
      id_Contact := 4\<rparr>"

definition contact_dec28 :: Contact where
  "contact_dec28 = contact_jan4\<lparr>birthday := (birthday contact_jan4)\<lparr>month := 12, day := 28\<rparr>,
      id_Contact := 5\<rparr>"

definition db3 :: Session where
  "db3 = \<lparr>users = [user1, user2],
          contacts = [contact_taras, contact_jan4, contact_jun7, contact_jun9, contact_dec28],
          contacts_id_seq = 6, commits = 5, lc_ctype = C_ctype, TimeZone = UTC\<rparr>"

definition contact_feb29 :: Contact where
  "contact_feb29 = contact_jan4\<lparr>birthday := \<lparr>year = 2000, month = 2, day = 29, hour = 0,
      minute = 0, second = 0, microsecond = 0, tzinfo = None\<rparr>, id_Contact := 6\<rparr>"

definition mar1 :: datetime where
  "mar1 = \<lparr>year = 2023, month = 3, day = 1, hour = 9, minute = 0, second = 0,
           microsecond = 0, tzinfo = None\<rparr>"

definition dec31 :: datetime where
  "dec31 = \<lparr>year = 2023, month = 12, day = 31, hour = 23, minute = 59, second = 59,
            microsecond = 0, tzinfo = None\<rparr>"

definition jan4_2024 :: datetime where
  "jan4_2024 = \<lparr>year = 2024, month = 1, day = 4, hour = 10, minute = 30, second = 0,
            microsecond = 0, tzinfo = None\<rparr>"

text \<open>
  Bodies that validation accepts and the database does not keep as they are: one with
  a timezone-aware birthday, 2000-03-01T00:30+02:00, which is 2000-02-29 22:30 in UTC,
  and one with a NUL character in the first name.
\<close>

definition aware_birthday :: datetime where
  "aware_birthday = \<lparr>year = 2000, month = 3, day = 1, hour = 0, minute = 30, second = 0,
                     microsecond = 0, tzinfo = Some 120\<rparr>"

definition utc_birthday :: datetime where
  "utc_birthday = \<lparr>year = 2000, month = 2, day = 29, hour = 22, minute = 30, second = 0,
                   microsecond = 0, tzinfo = None\<rparr>"

definition body_aware :: ContactModel where
  "body_aware = body_taras\<lparr>birthday := aware_birthday\<rparr>"

definition body_nul :: ContactModel where
  "body_nul = body_taras\<lparr>firstname := str ''Taras'' @ [0]\<rparr>"

text \<open>
  A database whose locale folds the letters of Latin-1, where the first user has a
  contact with the email \<open>e-acute@x.ua\<close>, and a body with the email \<open>E-acute@x.ua\<close>.
\<close>

definition contact_eacute :: Contact where
  "contact_eacute = contact_taras\<lparr>email := 0xE9 # str ''@x.ua''\<rparr>"

definition body_Eacute :: ContactModel where
  "body_Eacute = body_taras\<lparr>email := 0xC9 # str ''@x.ua''\<rparr>"

definition db4 :: Session where
  "db4 = db1\<lparr>contacts := [contact_eacute], lc_ctype := Latin1_ctype\<rparr>"

text \<open>
  A database where the first user has a contact with the email \<open>a_b@x.ua\<close> and the
  second user one with the email \<open>aXb@x.ua\<close>, and a body with the email \<open>a_b@x.ua\<close>,
  an address that \<open>EmailStr\<close> accepts.
\<close>

definition contact_a_b :: Contact where
  "contact_a_b = contact_taras\<lparr>email := str ''a_b@x.ua''\<rparr>"

definition contact_aXb :: Contact where
  "contact_aXb = contact_taras\<lparr>email := str ''aXb@x.ua'', id_Contact := 2, user_id := Some 2\<rparr>"

definition body_a_b :: ContactModel where
  "body_a_b = body_taras\<lparr>email := str ''a_b@x.ua''\<rparr>"

definition db5 :: Session where
  "db5 = db1\<lparr>contacts := [contact_a_b, contact_aXb], contacts_id_seq := 3, commits := 2\<rparr>"

lemmas example_defs =
  user1_def user2_def body_taras_def body_taras2_def body_TARAS_def contact_taras_def
  db1_def db2_def aware_birthday_def utc_birthday_def body_aware_def body_nul_def
  contact_eacute_def body_Eacute_def db4_def contact_a_b_def contact_aXb_def body_a_b_def
  db5_def

lemmas date_example_defs =
  dec28_def dec31_def jun1_def mar1_def jan4_2024_def contact_jan4_def contact_jun7_def
  contact_jun9_def contact_dec28_def contact_feb29_def db3_def

section \<open>Facts about the queries\<close>

lemma first_eq_None: "first rows = None \<longleftrightarrow> rows = []"
  by (simp add: first_def split: list.splits)

lemma first_SomeD: "first rows = Some r \<Longrightarrow> r \<in> set rows"
  by (auto simp: first_def split: list.splits)

lemma in_join:
  "(c, u) \<in> set (query_Contact_join_User db) \<longleftrightarrow>
     c \<in> set (contacts db) \<and> u \<in> set (users db) \<and> user_id c = Some (id_User u)"
  by (auto simp: query_Contact_join_User_def)

lemma get_contact_by_id_SomeD:
  assumes "get_contact_by_id db user contact_id = Some c"
  shows "c \<in> set (contacts db)" and "id_Contact c = contact_id"
    and "user_id c = Some (id_User user)"
proof -
  from assms obtain u where
    "(c, u) \<in> set (query_Contact_join_User db)" "id_Contact c = contact_id"
    "id_User u = id_User user"
    by (auto simp: get_contact_by_id_def all_Contact_def dest!: first_SomeD)
  then show "c \<in> set (contacts db)" "id_Contact c = contact_id"
    "user_id c = Some (id_User user)"
    by (simp_all add: in_join)
qed

lemma get_contact_by_id_None_iff:
  "get_contact_by_id db user contact_id = None \<longleftrightarrow>
     (\<forall>c \<in> set (contacts db).
        id_Contact c = contact_id \<and> user_id c = Some (id_User user) \<longrightarrow>
        id_User user \<notin> id_User ` set (users db))"
proof -
  have "get_contact_by_id db user contact_id = None \<longleftrightarrow>
          (\<forall>c u. (c, u) \<in> set (query_Contact_join_User db) \<longrightarrow>
                 \<not> (id_Contact c = contact_id \<and> id_User u = id_User user))"
    by (auto simp: get_contact_by_id_def all_Contact_def first_eq_None filter_empty_conv)
  also have "\<dots> \<longleftrightarrow>
          (\<forall>c \<in> set (contacts db).
             id_Contact c = contact_id \<and> user_id c = Some (id_User user) \<longrightarrow>
             id_User user \<notin> id_User ` set (users db))"
    unfolding in_join by (metis (no_types, lifting) image_iff)
  finally show ?thesis .
qed

section \<open>Facts about matching and create\<close>

lemma lower_meta:
  "m \<in> {0x25, 0x5C, 0x5F} \<Longrightarrow> m \<in> set (lower L s) \<longleftrightarrow> m \<in> set s"
  using lower[of L] by blast



lemma like_refl: "0x5C \<notin> set p \<Longrightarrow> like p p"
  by (induction p) auto


lemma ilike_same_lower:
  "0x5C \<notin> set p \<Longrightarrow> lower L s = lower L p \<Longrightarrow> ilike L s p"
  by (simp add: ilike_def like_refl lower_meta)


lemma get_contact_by_email_None_iff:
  assumes "0 \<notin> set email'"
  shows "get_contact_by_email db user email' = Inr None \<longleftrightarrow>
     (\<forall>c \<in> set (contacts db).
        ilike (lc_ctype db) (email c) email' \<and> user_id c = Some (id_User user) \<longrightarrow>
        id_User user \<notin> id_User ` set (users db))"
proof -
  have "get_contact_by_email db user email' = Inr None \<longleftrightarrow>
          (\<forall>c u. (c, u) \<in> set (query_Contact_join_User db) \<longrightarrow>
                 \<not> (ilike (lc_ctype db) (email c) email' \<and> id_User u = id_User user))"
    using assms
    by (auto simp: get_contact_by_email_def all_Contact_def first_eq_None filter_empty_conv)
  also have "\<dots> \<longleftrightarrow>
          (\<forall>c \<in> set (contacts db).
             ilike (lc_ctype db) (email c) email' \<and> user_id c = Some (id_User user) \<longrightarrow>
             id_User user \<notin> id_User ` set (users db))"
    unfolding in_join by (metis (no_types, lifting) image_iff)
  finally show ?thesis .
qed

lemma get_contact_by_email_cases:
  assumes "0 \<notin> set email'"
  shows "get_contact_by_email db user email' = Inr None
       \<or> (\<exists>c. get_contact_by_email db user email' = Inr (Some c))"
  using assms by (cases "get_contact_by_email db user email'")
    (auto simp: get_contact_by_email_def)

lemma create_contact_conflict:
  assumes "c \<in> set (contacts db)" "user_id c = Some (id_User U)"
    "id_User U \<in> id_User ` set (users db)" "ilike (lc_ctype db) (email c) (email D)"
    "0 \<notin> set (email D)"
  shows "create_contact D db func_now U = (Inl HTTP_409_CONFLICT, db)"
proof -
  have "get_contact_by_email db U (email D) \<noteq> Inr None"
    using assms unfolding get_contact_by_email_None_iff[OF assms(5)] by blast
  with get_contact_by_email_cases[OF assms(5), of db U] show ?thesis
    by (auto simp: create_contact_def)
qed


lemma create_InrD:
  assumes "create db func_now U D = (Inr c, db')"
  shows "contacts db' = contacts db @ [c]" and "users db' = users db"
    and "user_id c = Some (id_User U)" and "id_User U \<in> id_User ` set (users db)"
    and "ContactModel.truncate c = D\<lparr>birthday := bind_DateTime db (birthday D)\<rparr>"
    and "id_Contact c = contacts_id_seq db"
    and "id_Contact c \<notin> id_Contact ` set (contacts db)"
    and "created_at c = Some func_now" and "updated_at c = Some func_now"
    and "commits db' = commits db + 1" and "email c = email D"
    and "lc_ctype db' = lc_ctype db" and "0 \<notin> set (email D)"
  using assms by (auto simp: create_def Let_def ContactModel.truncate_def split: if_splits)


lemma get_contact_by_id_fresh:
  assumes "c \<in> set (contacts db)" "user_id c = Some (id_User U)"
    "id_User U \<in> id_User ` set (users db)"
    "\<forall>c' \<in> set (contacts db). id_Contact c' = id_Contact c \<longrightarrow> c' = c"
  shows "get_contact_by_id db U (id_Contact c) = Some c"
proof (cases "get_contact_by_id db U (id_Contact c)")
  case None
  with assms show ?thesis by (auto simp: get_contact_by_id_None_iff)
next
  case (Some c')
  from get_contact_by_id_SomeD[OF Some] assms(4) have "c' = c" by auto
  with Some show ?thesis by simp
qed

section \<open>Facts about the primary key\<close>

lemma pk_contacts_eq:
  "pk_contacts db \<Longrightarrow> c \<in> set (contacts db) \<Longrightarrow> c' \<in> set (contacts db) \<Longrightarrow>
   id_Contact c = id_Contact c' \<Longrightarrow> c = c'"
  unfolding pk_contacts_def by (metis distinct_map inj_onD)

lemma get_contact_by_id_owned:
  assumes "pk_contacts db" "c \<in> set (contacts db)" "user_id c = Some (id_User U)"
    "id_User U \<in> id_User ` set (users db)"
  shows "get_contact_by_id db U (id_Contact c) = Some c"
proof (rule get_contact_by_id_fresh)
  show "\<forall>c'\<in>set (contacts db). id_Contact c' = id_Contact c \<longrightarrow> c' = c"
    using assms(1,2) by (auto dest: pk_contacts_eq)
qed (use assms in auto)

lemma get_contact_by_id_other:
  assumes "pk_contacts db" "C \<in> set (contacts db)" "user_id C = Some (id_User U1)"
    "id_User U1 \<noteq> id_User U2"
  shows "get_contact_by_id db U2 (id_Contact C) = None"
proof (cases "get_contact_by_id db U2 (id_Contact C)")
  case None then show ?thesis .
next
  case (Some c')
  from get_contact_by_id_SomeD[OF Some] assms(1,2) have "c' = C" "user_id c' = Some (id_User U2)"
    by (auto dest: pk_contacts_eq)
  with assms(3,4) show ?thesis by simp
qed

lemma update_keeps_foreign:
  assumes "pk_contacts db" "C \<in> set (contacts db)" "user_id C \<noteq> Some (id_User U)"
  shows "C \<in> set (contacts (snd (update db func_now U i body)))"
proof (cases "get_contact_by_id db U i")
  case None then show ?thesis using assms(2) by (simp add: update_def)
next
  case (Some c)
  from get_contact_by_id_SomeD[OF Some] assms have "id_Contact C \<noteq> id_Contact c"
    by (auto dest: pk_contacts_eq)
  with assms(2) Some show ?thesis by (force simp: update_def)
qed

lemma update_None:
  "get_contact_by_id db U i = None \<Longrightarrow> update db func_now U i body = (Inr None, db)"
  by (simp add: update_def)

lemma remove_keeps_foreign:
  assumes "pk_contacts db" "C \<in> set (contacts db)" "user_id C \<noteq> Some (id_User U)"
  shows "C \<in> set (contacts (snd (remove db U i)))"
proof (cases "get_contact_by_id db U i")
  case None then show ?thesis using assms(2) by (simp add: remove_def)
next
  case (Some c)
  from get_contact_by_id_SomeD[OF Some] assms have "id_Contact C \<noteq> id_Contact c"
    by (auto dest: pk_contacts_eq)
  with assms(2) Some show ?thesis by (simp add: remove_def)
qed

section \<open>Facts about update\<close>

lemma flush_update_keeps:
  "id_Contact (flush_update db t D row) = id_Contact row"
  "user_id (flush_update db t D row) = user_id row"
  "created_at (flush_update db t D row) = created_at row"
  by (simp_all add: flush_update_def assign_body_def)

lemma assign_body_fields:
  "firstname (assign_body D row) = firstname D" "lastname (assign_body D row) = lastname D"
  "phone (assign_body D row) = phone D" "email (assign_body D row) = email D"
  "birthday (assign_body D row) = birthday D"
  "notes_Contact (assign_body D row) = notes_Contact D"
  by (simp_all add: assign_body_def)

lemma assign_body_sameD:
  assumes "assign_body D row = row"
  shows "firstname row = firstname D" "lastname row = lastname D" "phone row = phone D"
    "email row = email D" "birthday row = birthday D" "notes_Contact row = notes_Contact D"
proof -
  show "firstname row = firstname D"
    using arg_cong[OF assms, of firstname] by (simp add: assign_body_fields)
  show "lastname row = lastname D"
    using arg_cong[OF assms, of lastname] by (simp add: assign_body_fields)
  show "phone row = phone D"
    using arg_cong[OF assms, of phone] by (simp add: assign_body_fields)
  show "email row = email D"
    using arg_cong[OF assms, of email] by (simp add: assign_body_fields)
  show "birthday row = birthday D"
    using arg_cong[OF assms, of birthday] by (simp add: assign_body_fields)
  show "notes_Contact row = notes_Contact D"
    using arg_cong[OF assms, of notes_Contact] by (simp add: assign_body_fields)
qed

lemma flush_update_birthday:
  "birthday (flush_update db t D row) =
     (if assign_body D row = row then birthday D else bind_DateTime db (birthday D))"
  using assign_body_sameD(5)[of D row] by (simp add: flush_update_def)


lemma bind_DateTime_naive: "tzinfo (bind_DateTime db dt) = None"
  by (simp add: bind_DateTime_def)




section \<open>The constraints of the table are kept\<close>

lemma pk_contacts_remove: "pk_contacts db \<Longrightarrow> pk_contacts (snd (remove db U i))"
  by (auto simp: pk_contacts_def remove_def distinct_map_filter split: option.splits)

lemma seq_contacts_update: "seq_contacts db \<Longrightarrow> seq_contacts (snd (update db t U i D))"
  by (auto simp: seq_contacts_def update_def flush_update_keeps split: option.splits)

lemma seq_contacts_remove: "seq_contacts db \<Longrightarrow> seq_contacts (snd (remove db U i))"
  by (auto simp: seq_contacts_def remove_def split: option.splits)

lemma pk_seq_contacts_create:
  assumes "pk_contacts db" "seq_contacts db"
  shows "pk_contacts (snd (create db t U D))" and "seq_contacts (snd (create db t U D))"
  using assms by (auto simp: pk_contacts_def seq_contacts_def create_def Let_def)

section \<open>Facts about dates and their text form\<close>

lemma of_char_digit: "k < 10 \<Longrightarrow> (of_char (digit k) :: nat) = 48 + k"
  by (simp add: digit_def)

lemma digit_less: "a < 10 \<Longrightarrow> b < 10 \<Longrightarrow> digit a < digit b \<longleftrightarrow> a < b"
  by (simp add: less_char_def of_char_digit)

lemma digit_eq: "a < 10 \<Longrightarrow> b < 10 \<Longrightarrow> digit a = digit b \<longleftrightarrow> a = b"
  by (metis of_char_digit add_left_cancel)

lemma lex_digits:
  fixes a b c d :: nat
  assumes "b < 10" "d < 10"
  shows "(a < c \<or> (a = c \<and> (b < d \<or> (b = d \<and> P)))) \<longleftrightarrow>
         (10 * a + b < 10 * c + d \<or> (10 * a + b = 10 * c + d \<and> P))"
  using assms by (cases "a < c"; cases "a = c"; cases "b < d"; cases "b = d") simp_all

lemma two_digits_le:
  assumes "m < 100" "n < 100"
  shows "digit (m div 10) # digit (m mod 10) # r \<le> digit (n div 10) # digit (n mod 10) # s
         \<longleftrightarrow> m < n \<or> (m = n \<and> r \<le> s)"
proof -
  have d: "m div 10 < 10" "n div 10 < 10" "m mod 10 < 10" "n mod 10 < 10"
    using assms by simp_all
  have "digit (m div 10) # digit (m mod 10) # r \<le> digit (n div 10) # digit (n mod 10) # s
        \<longleftrightarrow> m div 10 < n div 10
             \<or> (m div 10 = n div 10 \<and> (m mod 10 < n mod 10 \<or> (m mod 10 = n mod 10 \<and> r \<le> s)))"
    by (simp add: digit_less digit_eq d)
  also have "\<dots> \<longleftrightarrow> 10 * (m div 10) + m mod 10 < 10 * (n div 10) + n mod 10
             \<or> (10 * (m div 10) + m mod 10 = 10 * (n div 10) + n mod 10 \<and> r \<le> s)"
    by (rule lex_digits) (rule d)+
  also have "\<dots> \<longleftrightarrow> m < n \<or> (m = n \<and> r \<le> s)"
    by simp
  finally show ?thesis .
qed

lemma to_char_MM_DD_le:
  assumes "month a < 100" "day a < 100" "month b < 100" "day b < 100"
  shows "to_char_MM_DD a \<le> to_char_MM_DD b
         \<longleftrightarrow> month a < month b \<or> (month a = month b \<and> day a \<le> day b)"
proof -
  have "to_char_MM_DD a \<le> to_char_MM_DD b \<longleftrightarrow>
        month a < month b \<or> (month a = month b \<and>
          CHR ''-'' # [digit (day a div 10), digit (day a mod 10)]
            \<le> CHR ''-'' # [digit (day b div 10), digit (day b mod 10)])"
    unfolding to_char_MM_DD_def by (rule two_digits_le[OF assms(1,3)])
  also have "CHR ''-'' # [digit (day a div 10), digit (day a mod 10)]
            \<le> CHR ''-'' # [digit (day b div 10), digit (day b mod 10)] \<longleftrightarrow>
        [digit (day a div 10), digit (day a mod 10)]
            \<le> [digit (day b div 10), digit (day b mod 10)]"
    by (simp only: Cons_le_Cons) simp
  also have "[digit (day a div 10), digit (day a mod 10)]
            \<le> [digit (day b div 10), digit (day b mod 10)] \<longleftrightarrow> day a \<le> day b"
    unfolding two_digits_le[OF assms(2,4)] by auto
  finally show ?thesis .
qed

lemma add_days_7:
  "add_days 7 dt = next_day (next_day (next_day (next_day (next_day (next_day (next_day dt))))))"
  by (simp add: eval_nat_numeral)

lemma next_day_december:
  assumes "month dt = 12"
  shows "next_day dt =
     (if day dt < 31 then dt\<lparr>day := day dt + 1\<rparr>
      else dt\<lparr>year := year dt + 1, month := 1, day := 1\<rparr>)"
  using assms by (simp add: next_day_def days_in_month_def)

lemma next_day_january:
  assumes "month dt = 1" "day dt < 31"
  shows "next_day dt = dt\<lparr>day := day dt + 1\<rparr>"
  using assms by (simp add: next_day_def days_in_month_def)

lemma december_plus_7:
  assumes "month today = 12" "25 \<le> day today" "day today \<le> 31"
  shows "add_days 7 today = today\<lparr>year := year today + 1, month := 1, day := day today - 24\<rparr>"
proof -
  from assms(2,3) consider "day today = 25" | "day today = 26" | "day today = 27"
    | "day today = 28" | "day today = 29" | "day today = 30" | "day today = 31"
    by linarith
  then show ?thesis
    by cases (simp_all add: add_days_7 next_day_december next_day_january assms(1))
qed

lemma window_empty:
  assumes "plus_timedelta_days today 7 = Inr next_week"
    and "\<not> to_char_MM_DD today \<le> to_char_MM_DD next_week"
  shows "get_next_week_birthday_contacts db today user = Inr []"
proof -
  have "\<not> (to_char_MM_DD today \<le> b \<and> b \<le> to_char_MM_DD next_week)" for b
    using assms(2) order_trans by blast
  then have "filter (\<lambda>(c, u). to_char_MM_DD today \<le> to_char_MM_DD (birthday c)
                             \<and> to_char_MM_DD (birthday c) \<le> to_char_MM_DD next_week
                             \<and> id_User u = id_User user)
                    (query_Contact_join_User db) = []"
    by (auto simp: filter_empty_conv)
  then show ?thesis
    by (simp add: get_next_week_birthday_contacts_def assms(1) all_Contact_def)
qed

lemma get_next_week_birthday_contacts_iff:
  assumes "plus_timedelta_days today 7 = Inr next_week"
    and "month today < 100" "day today < 100" "month next_week < 100" "day next_week < 100"
    and "month (birthday c) < 100" "day (birthday c) < 100"
  shows "\<exists>cs. get_next_week_birthday_contacts db today user = Inr cs \<and>
         (c \<in> set cs \<longleftrightarrow>
          c \<in> set (get_contacts db user)
          \<and> (month today, day today) \<le> (month (birthday c), day (birthday c))
          \<and> (month (birthday c), day (birthday c)) \<le> (month next_week, day next_week))"
proof -
  have 1: "to_char_MM_DD today \<le> to_char_MM_DD (birthday c) \<longleftrightarrow>
           (month today, day today) \<le> (month (birthday c), day (birthday c))"
    using assms by (subst to_char_MM_DD_le) auto
  have 2: "to_char_MM_DD (birthday c) \<le> to_char_MM_DD next_week \<longleftrightarrow>
           (month (birthday c), day (birthday c)) \<le> (month next_week, day next_week)"
    using assms by (subst to_char_MM_DD_le) auto
  show ?thesis
    unfolding 1[symmetric] 2[symmetric]
    by (auto simp: get_next_week_birthday_contacts_def assms(1) all_Contact_def get_contacts_def)
qed

section \<open>Facts about the calendar\<close>

lemma days_in_month_bounds: "28 \<le> days_in_month y m" "days_in_month y m \<le> 31"
  by (simp_all add: days_in_month_def)

lemma days_in_month_year:
  "days_in_month y m = days_in_month 1 m + (if m = 2 \<and> is_leap y then 1 else 0)"
  by (simp add: days_in_month_def is_leap_def)

lemma days_before_month_1: "days_before_month y 1 = 0"
  by (simp add: days_before_month_def)

lemma days_before_month_Suc:
  "1 \<le> m \<Longrightarrow> days_before_month y (Suc m) = days_before_month y m + int (days_in_month y m)"
  by (simp add: days_before_month_def)

lemma days_before_month_mono:
  assumes "1 \<le> m1" "m1 < m2"
  shows "days_before_month y m1 + int (days_in_month y m1) \<le> days_before_month y m2"
  using assms(2,1)
proof (induction m2)
  case 0
  then show ?case by simp
next
  case (Suc m2)
  show ?case
  proof (cases "m1 = m2")
    case True
    with Suc.prems show ?thesis by (simp add: days_before_month_Suc)
  next
    case False
    with Suc.prems have "m1 < m2" by simp
    from Suc.IH[OF this Suc.prems(2)] Suc.prems show ?thesis
      by (simp add: days_before_month_Suc)
  qed
qed

lemma days_before_month_year:
  "1 \<le> m \<Longrightarrow>
   days_before_month y m = days_before_month 1 m + (if 2 < m \<and> is_leap y then 1 else 0)"
proof (induction m)
  case 0
  then show ?case by simp
next
  case (Suc m)
  show ?case
  proof (cases "m = 0")
    case True
    then show ?thesis by (simp add: days_before_month_def)
  next
    case False
    then have m: "1 \<le> m" by simp
    have "days_before_month y (Suc m) = days_before_month y m + int (days_in_month y m)"
      using m by (rule days_before_month_Suc)
    also have "\<dots> = days_before_month 1 m + (if 2 < m \<and> is_leap y then 1 else 0)
        + int (days_in_month 1 m + (if m = 2 \<and> is_leap y then 1 else 0))"
      using Suc.IH[OF m] days_in_month_year[of y m] by simp
    also have "\<dots> = days_before_month 1 (Suc m) + (if 2 < Suc m \<and> is_leap y then 1 else 0)"
      using m by (auto simp: days_before_month_Suc)
    finally show ?thesis .
  qed
qed

lemma days_before_month_13: "days_before_month y 13 = 365 + (if is_leap y then 1 else 0)"
proof -
  have "days_before_month 1 13 = 365"
    by code_simp
  then show ?thesis using days_before_month_year[of 13 y] by simp
qed

lemma day_of_year_le:
  assumes "1 \<le> m" "m \<le> 12" "d \<le> days_in_month y m"
  shows "days_before_month y m + int d \<le> 365 + (if is_leap y then 1 else 0)"
proof -
  have "days_before_month y m + int (days_in_month y m) \<le> days_before_month y 13"
    using assms(1,2) by (intro days_before_month_mono) simp_all
  with assms(3) show ?thesis by (simp add: days_before_month_13)
qed

lemma days_before_month_nonneg: "0 \<le> days_before_month y m"
  by (simp add: days_before_month_def)

lemma int_Suc_div:
  "int (Suc z) div int k = int z div int k + (if Suc z mod k = 0 then 1 else 0)"
proof -
  have "int (Suc z) div int k = int (Suc z div k)"
    by (simp only: zdiv_int)
  also have "\<dots> = int (z div k) + (if Suc z mod k = 0 then 1 else 0)"
    by (simp add: div_Suc)
  also have "int (z div k) = int z div int k"
    by (simp only: zdiv_int)
  finally show ?thesis .
qed

lemma mod_400_100: "(n::nat) mod 400 = 0 \<Longrightarrow> n mod 100 = 0"
  using mod_mod_cancel[of 100 400 n] by simp

lemma mod_100_4: "(n::nat) mod 100 = 0 \<Longrightarrow> n mod 4 = 0"
  using mod_mod_cancel[of 4 100 n] by simp

lemma days_before_year_Suc:
  assumes "1 \<le> y"
  shows "days_before_year (Suc y) = days_before_year y + 365 + (if is_leap y then 1 else 0)"
proof -
  obtain z where z: "y = Suc z" using assms by (cases y) auto
  have d4: "int (Suc z) div 4 = int z div 4 + (if Suc z mod 4 = 0 then 1 else 0)"
    using int_Suc_div[of z 4] by simp
  have d100: "int (Suc z) div 100 = int z div 100 + (if Suc z mod 100 = 0 then 1 else 0)"
    using int_Suc_div[of z 100] by simp
  have d400: "int (Suc z) div 400 = int z div 400 + (if Suc z mod 400 = 0 then 1 else 0)"
    using int_Suc_div[of z 400] by simp
  have l: "days_before_year (Suc (Suc z)) =
      int (Suc z) * 365 + int (Suc z) div 4 - int (Suc z) div 100 + int (Suc z) div 400"
    and r: "days_before_year (Suc z) = int z * 365 + int z div 4 - int z div 100 + int z div 400"
    unfolding days_before_year_def Let_def by simp_all
  show ?thesis
  proof (cases "Suc z mod 4 = 0")
    case False
    then have n100: "Suc z mod 100 \<noteq> 0"
      using mod_100_4[of "Suc z"] by auto
    then have "Suc z mod 400 \<noteq> 0"
      using mod_400_100[of "Suc z"] by auto
    with False n100 show ?thesis
      unfolding z l r d4 d100 d400 is_leap_def by simp
  next
    case c4: True
    show ?thesis
    proof (cases "Suc z mod 100 = 0")
      case False
      then have "Suc z mod 400 \<noteq> 0" using mod_400_100[of "Suc z"] by auto
      with c4 False show ?thesis
        unfolding z l r d4 d100 d400 is_leap_def by simp
    next
      case c100: True
      show ?thesis
        unfolding z l r d4 d100 d400 is_leap_def using c4 c100 by simp
    qed
  qed
qed

lemma day_of_year_less_iff:
  assumes "1 \<le> m1" "1 \<le> d1" "d1 \<le> days_in_month y m1"
    and "1 \<le> m2" "1 \<le> d2" "d2 \<le> days_in_month y m2"
  shows "(m1, d1) < (m2, d2) \<longleftrightarrow>
         days_before_month y m1 + int d1 < days_before_month y m2 + int d2"
proof -
  consider "m1 < m2" | "m1 = m2" | "m2 < m1" by linarith
  then show ?thesis
  proof cases
    case 1
    from days_before_month_mono[OF assms(1) 1, of y] assms(3,5) 1 show ?thesis
      by simp
  next
    case 2
    then show ?thesis by simp
  next
    case 3
    from days_before_month_mono[OF assms(4) 3, of y] assms(6,2) 3 show ?thesis
      by simp
  qed
qed

lemma day_of_year_eq_iff:
  assumes "1 \<le> m1" "1 \<le> d1" "d1 \<le> days_in_month y m1"
    and "1 \<le> m2" "1 \<le> d2" "d2 \<le> days_in_month y m2"
  shows "m1 = m2 \<and> d1 = d2 \<longleftrightarrow>
         days_before_month y m1 + int d1 = days_before_month y m2 + int d2"
proof -
  have "(m1, d1) = (m2, d2) \<longleftrightarrow> \<not> (m1, d1) < (m2, d2) \<and> \<not> (m2, d2) < (m1, d1)"
    by (rule iffI) (simp, meson linorder_neqE)
  then show ?thesis
    unfolding day_of_year_less_iff[OF assms] day_of_year_less_iff[OF assms(4-6) assms(1-3)]
    by auto
qed

lemma microseconds_of_day_bounds:
  assumes "check_time_fields dt"
  shows "0 \<le> microseconds_of_day dt" and "microseconds_of_day dt < 86400000000"
  using assms
  by (simp_all add: microseconds_of_day_def seconds_of_day_def check_time_fields_def)

lemma time_less_iff:
  assumes "check_time_fields a" "check_time_fields b"
  shows "(hour a, minute a, second a, microsecond a) < (hour b, minute b, second b, microsecond b)
         \<longleftrightarrow> microseconds_of_day a < microseconds_of_day b"
proof -
  have b: "minute a < 60" "second a < 60" "microsecond a < 1000000"
    "minute b < 60" "second b < 60" "microsecond b < 1000000"
    using assms by (simp_all add: check_time_fields_def)
  show ?thesis
    unfolding microseconds_of_day_def seconds_of_day_def less_prod_simp
    using b by (cases "hour a < hour b"; cases "hour a = hour b";
        cases "minute a < minute b"; cases "minute a = minute b";
        cases "second a < second b"; cases "second a = second b") simp_all
qed

lemma div_day_bounds:
  fixes x :: int
  assumes "0 \<le> x" "x < 366 * 86400000000"
  shows "0 \<le> x div 86400000000 \<and> x div 86400000000 \<le> 365"
proof -
  have "0 \<le> x div 86400000000"
    using assms(1) by (simp add: pos_imp_zdiv_nonneg_iff)
  moreover have "x div 86400000000 < 366"
    using assms(2) by (simp add: div_less_iff_less_mult)
  ultimately show ?thesis by simp
qed

lemma minus_days_eq:
  "minus_days a b =
     ((toordinal a * 86400000000 + microseconds_of_day a)
      - (toordinal b * 86400000000 + microseconds_of_day b)) div 86400000000"
  by (simp add: minus_days_def microseconds_of_day_def algebra_simps)

lemma lex_key:
  fixes X X' T T' :: int
  assumes "0 \<le> T" "T < 86400000000" "0 \<le> T'" "T' < 86400000000"
  shows "(X < X' \<or> (X = X' \<and> T < T')) \<longleftrightarrow>
         X * 86400000000 + T < X' * 86400000000 + T'"
  using assms by (cases "X < X'"; cases "X = X'") simp_all

lemma fields_less_iff:
  assumes "year a = year b" "valid_datetime a" "valid_datetime b"
  shows "datetime_fields a < datetime_fields b \<longleftrightarrow>
         toordinal a * 86400000000 + microseconds_of_day a
           < toordinal b * 86400000000 + microseconds_of_day b"
proof -
  have va: "1 \<le> month a" "1 \<le> day a" "day a \<le> days_in_month (year b) (month a)"
    and vb: "1 \<le> month b" "1 \<le> day b" "day b \<le> days_in_month (year b) (month b)"
    and ta: "check_time_fields a" and tb: "check_time_fields b"
    using assms by (simp_all add: valid_datetime_def check_date_fields_def)
  have lt: "(month a, day a) < (month b, day b) \<longleftrightarrow> toordinal a < toordinal b"
    unfolding day_of_year_less_iff[OF va vb] by (simp add: toordinal_def assms(1))
  have eq: "month a = month b \<and> day a = day b \<longleftrightarrow> toordinal a = toordinal b"
    unfolding day_of_year_eq_iff[OF va vb] by (simp add: toordinal_def assms(1))
  note tm = time_less_iff[OF ta tb]
  have "datetime_fields a < datetime_fields b \<longleftrightarrow>
        (month a, day a) < (month b, day b)
        \<or> ((month a = month b \<and> day a = day b)
           \<and> (hour a, minute a, second a, microsecond a)
               < (hour b, minute b, second b, microsecond b))"
    by (auto simp: datetime_fields_def assms(1))
  also have "\<dots> \<longleftrightarrow> toordinal a < toordinal b
        \<or> (toordinal a = toordinal b \<and> microseconds_of_day a < microseconds_of_day b)"
    by (simp only: lt eq tm)
  also have "\<dots> \<longleftrightarrow> toordinal a * 86400000000 + microseconds_of_day a
           < toordinal b * 86400000000 + microseconds_of_day b"
    by (rule lex_key) (simp_all add: microseconds_of_day_bounds ta tb)
  finally show ?thesis .
qed

lemma toordinal_year_bounds:
  assumes "check_date_fields (year dt) (month dt) (day dt)"
  shows "days_before_year (year dt) + 1 \<le> toordinal dt"
    and "toordinal dt \<le> days_before_year (year dt) + 365 + (if is_leap (year dt) then 1 else 0)"
proof -
  have v: "1 \<le> month dt" "month dt \<le> 12" "1 \<le> day dt"
    "day dt \<le> days_in_month (year dt) (month dt)"
    using assms by (simp_all add: check_date_fields_def)
  show "days_before_year (year dt) + 1 \<le> toordinal dt"
    using v(3) days_before_month_nonneg[of "year dt" "month dt"] by (simp add: toordinal_def)
  show "toordinal dt \<le> days_before_year (year dt) + 365 + (if is_leap (year dt) then 1 else 0)"
    using day_of_year_le[OF v(1,2,4)] by (simp add: toordinal_def)
qed

lemma is_leap_Suc: "is_leap y \<Longrightarrow> \<not> is_leap (Suc y)"
  unfolding is_leap_def by presburger

lemma toordinal_next_year:
  assumes "1 \<le> year dt" "1 \<le> month dt"
  shows "toordinal (dt\<lparr>year := Suc (year dt)\<rparr>) - toordinal dt \<in> {365, 366}"
proof -
  have "toordinal (dt\<lparr>year := Suc (year dt)\<rparr>) - toordinal dt =
      365 + (if is_leap (year dt) then 1 else 0)
      + (if 2 < month dt \<and> is_leap (Suc (year dt)) then 1 else 0)
      - (if 2 < month dt \<and> is_leap (year dt) then 1 else 0)"
    unfolding toordinal_def
    using days_before_year_Suc[OF assms(1)]
      days_before_month_year[OF assms(2), of "year dt"]
      days_before_month_year[OF assms(2), of "Suc (year dt)"]
    by simp
  then show ?thesis
    using is_leap_Suc[of "year dt"] by auto
qed

lemma next_day_fields:
  assumes "1 \<le> month dt" "month dt \<le> 12" "1 \<le> day dt"
    "day dt \<le> days_in_month (year dt) (month dt)"
  shows "1 \<le> month (next_day dt)" "month (next_day dt) \<le> 12" "1 \<le> day (next_day dt)"
    "day (next_day dt) \<le> days_in_month (year (next_day dt)) (month (next_day dt))"
    "year dt \<le> year (next_day dt)"
  using assms days_in_month_bounds(1)[of "year dt" "Suc (month dt)"]
    days_in_month_bounds(1)[of "Suc (year dt)" 1]
  by (simp_all add: next_day_def)

lemma toordinal_next_day:
  assumes "1 \<le> year dt" "1 \<le> month dt" "month dt \<le> 12" "1 \<le> day dt"
    "day dt \<le> days_in_month (year dt) (month dt)"
  shows "toordinal (next_day dt) = toordinal dt + 1"
proof (cases "day dt < days_in_month (year dt) (month dt)")
  case True
  then show ?thesis by (simp add: next_day_def toordinal_def)
next
  case False
  with assms(5) have d: "day dt = days_in_month (year dt) (month dt)" by simp
  show ?thesis
  proof (cases "month dt < 12")
    case True
    with False d days_before_month_Suc[OF assms(2), of "year dt"] show ?thesis
      by (simp add: next_day_def toordinal_def)
  next
    case False
    with assms(3) have m: "month dt = 12" by simp
    have "days_before_month (year dt) 13 = days_before_month (year dt) 12 + int (day dt)"
      using days_before_month_Suc[of 12 "year dt"] d m by simp
    then have "days_before_month (year dt) 12 + int (day dt)
        = 365 + (if is_leap (year dt) then 1 else 0)"
      by (simp add: days_before_month_13)
    with m d days_before_year_Suc[OF assms(1)] show ?thesis
      by (simp add: next_day_def toordinal_def days_before_month_def)
  qed
qed

lemma toordinal_add_days:
  assumes "1 \<le> year dt" "1 \<le> month dt" "month dt \<le> 12" "1 \<le> day dt"
    "day dt \<le> days_in_month (year dt) (month dt)"
  shows "toordinal (add_days n dt) = toordinal dt + int n"
  using assms
proof (induction n arbitrary: dt)
  case 0
  then show ?case by simp
next
  case (Suc n)
  note f = next_day_fields[OF Suc.prems(2-5)]
  have "1 \<le> year (next_day dt)" using f(5) Suc.prems(1) by simp
  from Suc.IH[OF this f(1-4)] toordinal_next_day[OF Suc.prems] show ?case
    by simp
qed

section \<open>Isolation between users\<close>

text \<open>
  Claim C1. Let \<open>C\<close> be a contact in the table owned by user \<open>U1\<close>, and \<open>U2\<close> a user
  with a different id. Then \<open>get_contact_by_id\<close> for \<open>U2\<close> and the id of \<open>C\<close> returns
  \<open>None\<close>, which the route turns into a 404 (the id being at least 1, as \<open>Path(ge=1)\<close>
  demands); \<open>update\<close> and \<open>remove\<close> by \<open>U2\<close> on that id return \<open>None\<close> and leave the
  database as it was; and whatever id \<open>U2\<close> updates or removes, the row \<open>C\<close> is still in
  the table afterwards, unchanged. The table satisfies its primary key.
\<close>

theorem C1_owner_isolation:
  assumes "pk_contacts db" and "C \<in> set (contacts db)"
    and "user_id C = Some (id_User U1)" and "id_User U1 \<noteq> id_User U2"
  shows "get_contact_by_id db U2 (id_Contact C) = None
       \<and> get_contact (id_Contact C) db U2 =
           Inl (if 1 \<le> id_Contact C then HTTP_404_NOT_FOUND else RequestValidationError)
       \<and> update db func_now U2 (id_Contact C) body = (Inr None, db)
       \<and> remove db U2 (id_Contact C) = (None, db)
       \<and> (\<forall>i. C \<in> set (contacts (snd (update db func_now U2 i body))))
       \<and> (\<forall>i. C \<in> set (contacts (snd (remove db U2 i))))"
proof -
  have none: "get_contact_by_id db U2 (id_Contact C) = None"
    using assms by (rule get_contact_by_id_other)
  have foreign: "user_id C \<noteq> Some (id_User U2)"
    using assms(3,4) by simp
  show ?thesis
    using none update_keeps_foreign[OF assms(1,2) foreign]
      remove_keeps_foreign[OF assms(1,2) foreign]
    by (simp add: get_contact_def update_def remove_def)
qed

theorem C1_owner_isolation_witness:
  "pk_contacts db1 \<and> contact_taras \<in> set (contacts db1)
   \<and> user_id contact_taras = Some (id_User user1) \<and> id_User user1 \<noteq> id_User user2
   \<and> get_contact_by_id db1 user2 1 = None
   \<and> get_contact 1 db1 user2 = Inl HTTP_404_NOT_FOUND
   \<and> update db1 200 user2 1 body_taras2 = (Inr None, db1)
   \<and> remove db1 user2 1 = (None, db1)
   \<and> get_contact_by_id db1 user1 1 = Some contact_taras"
proof -
  have h: "pk_contacts db1" "contact_taras \<in> set (contacts db1)"
    "user_id contact_taras = Some (id_User user1)" "id_User user1 \<noteq> id_User user2"
    by (simp_all add: example_defs pk_contacts_def)
  have own: "get_contact_by_id db1 user1 1 = Some contact_taras"
    by (simp add: example_defs get_contact_by_id_def query_Contact_join_User_def
        all_Contact_def first_def)
  have id1: "id_Contact contact_taras = 1" by (simp add: contact_taras_def)
  from C1_owner_isolation[OF h, of 200 body_taras2] h own show ?thesis
    by (simp add: id1)
qed

section \<open>Remove, then get\<close>

text \<open>
  Claim C5. Let \<open>c\<close> be a contact in the table owned by \<open>U\<close>, a user of table \<open>users\<close>.
  Then \<open>remove\<close> by \<open>U\<close> on the id of \<open>c\<close> returns \<open>c\<close>, and afterwards
  \<open>get_contact_by_id\<close> on that id returns \<open>None\<close> for every user (the route: 404), and
  \<open>c\<close> is no longer a row of the table.
\<close>

theorem C5_remove_then_get:
  assumes "pk_contacts db" and "c \<in> set (contacts db)"
    and "user_id c = Some (id_User U)" and "id_User U \<in> id_User ` set (users db)"
  shows "fst (remove db U (id_Contact c)) = Some c
       \<and> (\<forall>U'. get_contact_by_id (snd (remove db U (id_Contact c))) U' (id_Contact c) = None)
       \<and> (\<forall>U'. get_contact (id_Contact c) (snd (remove db U (id_Contact c))) U' =
            Inl (if 1 \<le> id_Contact c then HTTP_404_NOT_FOUND else RequestValidationError))
       \<and> c \<notin> set (contacts (snd (remove db U (id_Contact c))))"
proof -
  have got: "get_contact_by_id db U (id_Contact c) = Some c"
    using assms by (rule get_contact_by_id_owned)
  have gone: "get_contact_by_id (snd (remove db U (id_Contact c))) U' (id_Contact c) = None"
    for U'
    by (simp add: got remove_def get_contact_by_id_None_iff)
  show ?thesis using gone by (simp add: got remove_def get_contact_def)
qed

theorem C5_remove_then_get_witness:
  "pk_contacts db1 \<and> contact_taras \<in> set (contacts db1)
   \<and> user_id contact_taras = Some (id_User user1)
   \<and> id_User user1 \<in> id_User ` set (users db1)
   \<and> remove db1 user1 1 = (Some contact_taras, db1\<lparr>contacts := [], commits := 2\<rparr>)
   \<and> get_contact_by_id (snd (remove db1 user1 1)) user1 1 = None
   \<and> get_contact 1 (snd (remove db1 user1 1)) user1 = Inl HTTP_404_NOT_FOUND"
proof -
  have h: "pk_contacts db1" "contact_taras \<in> set (contacts db1)"
    "user_id contact_taras = Some (id_User user1)"
    "id_User user1 \<in> id_User ` set (users db1)"
    by (simp_all add: example_defs pk_contacts_def)
  have id1: "id_Contact contact_taras = 1" by (simp add: contact_taras_def)
  have rm: "remove db1 user1 1 = (Some contact_taras, db1\<lparr>contacts := [], commits := 2\<rparr>)"
    by (simp add: example_defs remove_def get_contact_by_id_def query_Contact_join_User_def
        all_Contact_def first_def)
  from C5_remove_then_get[OF h] h rm show ?thesis
    by (simp add: id1)
qed

section \<open>Update of a contact that is absent or not the caller's\<close>

text \<open>
  Claim C6. If no row of the table has id \<open>i\<close> and owner \<open>U\<close> (the id is absent, or
  the row belongs to someone else), then \<open>update\<close> by \<open>U\<close> on \<open>i\<close> returns \<open>None\<close> and
  the route a 404, and the database is the same afterwards: the same rows, the same
  number of commits.
\<close>

theorem C6_update_not_found:
  assumes "\<forall>c \<in> set (contacts db). id_Contact c = i \<longrightarrow> user_id c \<noteq> Some (id_User U)"
  shows "update db func_now U i D = (Inr None, db)
       \<and> update_contact D i db func_now U =
           (Inl (if 1 \<le> i then HTTP_404_NOT_FOUND else RequestValidationError), db)"
proof -
  have "get_contact_by_id db U i = None"
    using assms by (auto simp: get_contact_by_id_None_iff)
  then show ?thesis by (simp add: update_def update_contact_def)
qed

theorem C6_update_not_found_witness:
  "filter (\<lambda>c. id_Contact c = 1 \<and> user_id c = Some (id_User user2)) (contacts db1) = []
   \<and> filter (\<lambda>c. id_Contact c = 7 \<and> user_id c = Some (id_User user1)) (contacts db1) = []
   \<and> update db1 200 user2 1 body_taras2 = (Inr None, db1)
   \<and> update_contact body_taras2 1 db1 200 user2 = (Inl HTTP_404_NOT_FOUND, db1)
   \<and> update db1 200 user1 7 body_taras2 = (Inr None, db1)
   \<and> update_contact body_taras2 7 db1 200 user1 = (Inl HTTP_404_NOT_FOUND, db1)"
proof -
  have h1: "\<forall>c \<in> set (contacts db1). id_Contact c = 1 \<longrightarrow> user_id c \<noteq> Some (id_User user2)"
    by (simp add: example_defs)
  have h2: "\<forall>c \<in> set (contacts db1). id_Contact c = 7 \<longrightarrow> user_id c \<noteq> Some (id_User user1)"
    by (simp add: example_defs)
  have f: "filter (\<lambda>c. id_Contact c = 1 \<and> user_id c = Some (id_User user2)) (contacts db1) = []"
    "filter (\<lambda>c. id_Contact c = 7 \<and> user_id c = Some (id_User user1)) (contacts db1) = []"
    by (simp_all add: example_defs)
  from C6_update_not_found[OF h1, of 200 body_taras2]
    C6_update_not_found[OF h2, of 200 body_taras2] f
  show ?thesis by simp
qed

section \<open>Update of an own contact\<close>







section \<open>Duplicate email on create\<close>

lemma create_contact_InrD:
  assumes "create_contact D db func_now U = (Inr c, db')"
  shows "create db func_now U D = (Inr c, db')"
  using assms by (auto simp: create_contact_def split: sum.splits option.splits)

text \<open>
  Claim C4. Let the email of the body \<open>D\<close> contain no backslash (no address that
  \<open>EmailStr\<close> accepts has one). If the caller \<open>U\<close>, a user of table \<open>users\<close>, owns a contact
  with the same email (a stored email holds no NUL character, as no text value of
  PostgreSQL does), then the route \<open>create_contact\<close> answers 409 and the database is
  unchanged, so no contact is stored. In particular, when a first \<open>create_contact\<close> by
  \<open>U\<close> succeeded, a second one by \<open>U\<close> with the same email answers 409.
\<close>

theorem C4_duplicate_email_conflict:
  assumes "0x5C \<notin> set (email D)"
  shows "(c \<in> set (contacts db) \<and> user_id c = Some (id_User U)
            \<and> id_User U \<in> id_User ` set (users db) \<and> email c = email D
            \<and> 0 \<notin> set (email c)
          \<longrightarrow> create_contact D db func_now U = (Inl HTTP_409_CONFLICT, db))
       \<and> (create_contact D0 db0 t0 U = (Inr c1, db) \<and> email D0 = email D
          \<longrightarrow> create_contact D db func_now U = (Inl HTTP_409_CONFLICT, db))"
proof (intro conjI impI)
  assume "c \<in> set (contacts db) \<and> user_id c = Some (id_User U)
            \<and> id_User U \<in> id_User ` set (users db) \<and> email c = email D
            \<and> 0 \<notin> set (email c)"
  then show "create_contact D db func_now U = (Inl HTTP_409_CONFLICT, db)"
    using assms by (auto intro!: create_contact_conflict[of c] ilike_same_lower)
next
  assume a: "create_contact D0 db0 t0 U = (Inr c1, db) \<and> email D0 = email D"
  then have cr: "create db0 t0 U D0 = (Inr c1, db)"
    by (simp add: create_contact_InrD)
  have "c1 \<in> set (contacts db)" "user_id c1 = Some (id_User U)"
    "id_User U \<in> id_User ` set (users db)" "email c1 = email D" "0 \<notin> set (email D)"
    using create_InrD[OF cr] a by auto
  then show "create_contact D db func_now U = (Inl HTTP_409_CONFLICT, db)"
    using assms by (auto intro!: create_contact_conflict[of c1] ilike_same_lower)
qed

theorem C4_duplicate_email_conflict_witness:
  "0x5C \<notin> set (email body_taras2)
   \<and> contact_taras \<in> set (contacts db1) \<and> user_id contact_taras = Some (id_User user1)
   \<and> id_User user1 \<in> id_User ` set (users db1) \<and> email contact_taras = email body_taras2
   \<and> 0 \<notin> set (email contact_taras)
   \<and> create_contact body_taras2 db1 200 user1 = (Inl HTTP_409_CONFLICT, db1)
   \<and> create_contact body_taras db2 100 user1 = (Inr contact_taras, db1)
   \<and> email body_taras = email body_taras2"
proof -
  have h: "0x5C \<notin> set (email body_taras2)"
    by (simp add: example_defs str_def)
  have k: "contact_taras \<in> set (contacts db1)" "user_id contact_taras = Some (id_User user1)"
    "id_User user1 \<in> id_User ` set (users db1)" "email contact_taras = email body_taras2"
    "email body_taras = email body_taras2" "0 \<notin> set (email contact_taras)"
    by (simp_all add: example_defs str_def)
  have e: "get_contact_by_email db2 user1 (email body_taras) = Inr None"
    by (simp add: example_defs get_contact_by_email_def query_Contact_join_User_def
        all_Contact_def first_def str_def)
  have cr: "create_contact body_taras db2 100 user1 = (Inr contact_taras, db1)"
    unfolding create_contact_def e
    by (simp add: example_defs create_def Let_def bind_DateTime_def str_def)
  from C4_duplicate_email_conflict[OF h, of contact_taras db1 user1 200 body_taras db2 100 contact_taras]
    h k cr
  show ?thesis by simp
qed




section \<open>Create, then get\<close>




section \<open>The birthday window at the end of the year\<close>

text \<open>
  Claim C3. The window is the set of birthdays whose text \<open>MM-DD\<close> lies between that of
  today and that of today plus seven days. On every date from 25 to 31 December (of a
  year before 9999) the upper bound is a day in January of the next year, its text is
  smaller than the lower bound's, and the query returns no contact at all: none with a
  birthday in early January, and none with any other birthday.
\<close>

theorem C3_year_end_window_empty:
  assumes "month today = 12" and "25 \<le> day today" and "day today \<le> 31"
    and "year today < 9999"
  shows "plus_timedelta_days today 7 =
           Inr (today\<lparr>year := year today + 1, month := 1, day := day today - 24\<rparr>)
       \<and> to_char_MM_DD (today\<lparr>year := year today + 1, month := 1, day := day today - 24\<rparr>)
           < to_char_MM_DD today
       \<and> get_next_week_birthday_contacts db today user = Inr []"
proof -
  let ?nw = "today\<lparr>year := year today + 1, month := 1, day := day today - 24\<rparr>"
  have plus: "plus_timedelta_days today 7 = Inr ?nw"
    using assms(4) by (simp add: plus_timedelta_days_def december_plus_7[OF assms(1-3)])
  have "\<not> to_char_MM_DD today \<le> to_char_MM_DD ?nw"
    using assms(1-3) by (subst to_char_MM_DD_le) simp_all
  then have less: "to_char_MM_DD ?nw < to_char_MM_DD today"
    by simp
  from plus less window_empty[OF plus, of db user] show ?thesis
    by simp
qed

theorem C3_year_end_window_empty_witness:
  "month dec31 = 12 \<and> 25 \<le> day dec31 \<and> day dec31 \<le> 31 \<and> year dec31 < 9999
   \<and> plus_timedelta_days dec31 7 = Inr (dec31\<lparr>year := 2024, month := 1, day := 7\<rparr>)
   \<and> contact_jan4 \<in> set (get_contacts db3 user1)
   \<and> month (birthday contact_jan4) = 1 \<and> day (birthday contact_jan4) = 4
   \<and> get_next_week_birthday_contacts db3 dec31 user1 = Inr []"
proof -
  have h: "month dec31 = 12" "25 \<le> day dec31" "day dec31 \<le> 31" "year dec31 < 9999"
    by (simp_all add: dec31_def)
  have c: "contact_jan4 \<in> set (get_contacts db3 user1)"
    "month (birthday contact_jan4) = 1" "day (birthday contact_jan4) = 4"
    by (simp_all add: date_example_defs example_defs get_contacts_def all_Contact_def
        query_Contact_join_User_def)
  from C3_year_end_window_empty[OF h, of db3 user1] h c show ?thesis
    by (simp add: dec31_def)
qed

text \<open>
  Claim C2, at 28 December 2023: today plus seven days is 4 January 2024; the first
  user owns a contact born on a 4 January, whose \<open>MM-DD\<close> is that of today plus seven
  days, and a contact born on a 28 December, whose \<open>MM-DD\<close> is today's; and the query
  returns neither: its result is empty.
\<close>

theorem C2_window_misses_year_end:
  "plus_timedelta_days dec28 7 = Inr jan4_2024
   \<and> to_char_MM_DD (birthday contact_jan4) = to_char_MM_DD jan4_2024
   \<and> to_char_MM_DD (birthday contact_dec28) = to_char_MM_DD dec28
   \<and> contact_jan4 \<in> set (get_contacts db3 user1)
   \<and> contact_dec28 \<in> set (get_contacts db3 user1)
   \<and> get_next_week_birthday_contacts db3 dec28 user1 = Inr []"
proof -
  have plus: "plus_timedelta_days dec28 7 = Inr jan4_2024"
    by (simp add: plus_timedelta_days_def add_days_7 next_day_december next_day_january
        dec28_def jan4_2024_def)
  have same: "to_char_MM_DD (birthday contact_jan4) = to_char_MM_DD jan4_2024"
    "to_char_MM_DD (birthday contact_dec28) = to_char_MM_DD dec28"
    by (simp_all add: to_char_MM_DD_def contact_jan4_def contact_dec28_def jan4_2024_def
        dec28_def)
  have own: "contact_jan4 \<in> set (get_contacts db3 user1)"
    "contact_dec28 \<in> set (get_contacts db3 user1)"
    by (simp_all add: date_example_defs example_defs get_contacts_def all_Contact_def
        query_Contact_join_User_def)
  have "\<not> to_char_MM_DD dec28 \<le> to_char_MM_DD jan4_2024"
    by (subst to_char_MM_DD_le) (simp_all add: dec28_def jan4_2024_def)
  from window_empty[OF plus this] plus same own show ?thesis
    by simp
qed

section \<open>Days to the next birthday\<close>

text \<open>
  Whenever the property returns, the value lies between 0 and 365; and it returns for
  every naive birthday other than 29 February (in a year before 9999).
\<close>

lemma days_to_next_birthday_range:
  assumes vb: "valid_datetime (birthday c)" and vt: "valid_datetime today"
    and res: "days_to_next_birthday c today = Inr n"
  shows "0 \<le> n \<and> n \<le> 365"
proof -
  define nb where "nb = (birthday c)\<lparr>year := year today\<rparr>"
  have chk: "check_date_fields (year today) (month (birthday c)) (day (birthday c))"
    using res by (auto simp: days_to_next_birthday_def replace_year_def split: if_splits)
  then have rep: "replace_year (birthday c) (year today) = Inr nb"
    by (simp add: replace_year_def nb_def)
  have tz: "tzinfo nb = None"
    using res rep by (auto simp: days_to_next_birthday_def split: if_splits)
  have vnb: "valid_datetime nb" and ynb: "year nb = year today"
    and dnb: "check_date_fields (year nb) (month nb) (day nb)"
    using chk vb by (simp_all add: nb_def valid_datetime_def check_time_fields_def)
  have dt: "check_date_fields (year today) (month today) (day today)"
    using vt by (simp add: valid_datetime_def)
  have tnb: "0 \<le> microseconds_of_day nb" "microseconds_of_day nb < 86400000000"
    and tt: "0 \<le> microseconds_of_day today" "microseconds_of_day today < 86400000000"
    using vnb vt by (simp_all add: valid_datetime_def microseconds_of_day_bounds)
  note bnb = toordinal_year_bounds[OF dnb, unfolded ynb]
  note bt = toordinal_year_bounds[OF dt]
  note key = fields_less_iff[OF ynb vnb vt]
  show ?thesis
  proof (cases "datetime_fields nb < datetime_fields today")
    case False
    with res rep tz have n: "n = minus_days nb today"
      by (simp add: days_to_next_birthday_def)
    from False key have ge: "toordinal today * 86400000000 + microseconds_of_day today
        \<le> toordinal nb * 86400000000 + microseconds_of_day nb"
      by simp
    have "toordinal nb - toordinal today \<le> 365"
      using bnb(2) bt(1) by (simp split: if_splits)
    then have "(toordinal nb * 86400000000 + microseconds_of_day nb)
        - (toordinal today * 86400000000 + microseconds_of_day today) < 366 * 86400000000"
      using tnb tt by simp
    with ge show ?thesis
      unfolding n minus_days_eq by (intro div_day_bounds) simp_all
  next
    case True
    define nb' where "nb' = \<lparr>year = year nb + 1, month = month nb, day = day nb, hour = 0,
      minute = 0, second = 0, microsecond = 0, tzinfo = None\<rparr>"
    from True res rep tz have chk': "check_date_fields (year nb + 1) (month nb) (day nb)"
      by (auto simp: days_to_next_birthday_def datetime_ymd_def split: if_splits)
    with True res rep tz have n: "n = minus_days nb' today"
      by (simp add: days_to_next_birthday_def datetime_ymd_def nb'_def)
    have t0: "microseconds_of_day nb' = 0"
      by (simp add: microseconds_of_day_def seconds_of_day_def nb'_def)
    have ord': "toordinal nb' = toordinal (nb\<lparr>year := Suc (year nb)\<rparr>)"
      by (simp add: toordinal_def nb'_def)
    have y1: "1 \<le> year nb" "1 \<le> month nb"
      using dnb by (simp_all add: check_date_fields_def)
    from toordinal_next_year[OF y1] have step: "toordinal nb' \<le> toordinal nb + 366"
      unfolding ord' by auto
    have dnb': "check_date_fields (year nb') (month nb') (day nb')"
      using chk' by (simp add: nb'_def)
    have "days_before_year (Suc (year today)) + 1 \<le> toordinal nb'"
      using toordinal_year_bounds(1)[OF dnb'] by (simp add: nb'_def ynb)
    moreover have "1 \<le> year today" using dt by (simp add: check_date_fields_def)
    ultimately have after: "toordinal today + 1 \<le> toordinal nb'"
      using bt(2) days_before_year_Suc[of "year today"] by (simp split: if_splits)
    from True key have lt: "toordinal nb * 86400000000 + microseconds_of_day nb
        < toordinal today * 86400000000 + microseconds_of_day today"
      by simp
    have lo: "0 \<le> (toordinal nb' * 86400000000 + microseconds_of_day nb')
        - (toordinal today * 86400000000 + microseconds_of_day today)"
      using after tt t0 by simp
    have hi: "(toordinal nb' * 86400000000 + microseconds_of_day nb')
        - (toordinal today * 86400000000 + microseconds_of_day today) < 366 * 86400000000"
      using step lt tnb t0 by simp
    from lo hi show ?thesis
      unfolding n minus_days_eq by (rule div_day_bounds)
  qed
qed

lemma check_date_fields_other_year:
  assumes "check_date_fields y0 m d" "\<not> (m = 2 \<and> d = 29)" "1 \<le> y" "y \<le> 9999"
  shows "check_date_fields y m d"
  using assms by (auto simp: check_date_fields_def days_in_month_def split: if_splits)

lemma days_to_next_birthday_returns:
  assumes vb: "valid_datetime (birthday c)" and vt: "valid_datetime today"
    and "\<not> (month (birthday c) = 2 \<and> day (birthday c) = 29)" and "year today < 9999"
    and "tzinfo (birthday c) = None"
  shows "\<exists>n. days_to_next_birthday c today = Inr n \<and> 0 \<le> n \<and> n \<le> 365"
proof -
  have b: "check_date_fields (year (birthday c)) (month (birthday c)) (day (birthday c))"
    and y: "1 \<le> year today"
    using vb vt by (simp_all add: valid_datetime_def check_date_fields_def)
  have 1: "check_date_fields (year today) (month (birthday c)) (day (birthday c))"
    by (rule check_date_fields_other_year[OF b assms(3)]) (use y assms(4) in simp_all)
  have 2: "check_date_fields (year today + 1) (month (birthday c)) (day (birthday c))"
    by (rule check_date_fields_other_year[OF b assms(3)]) (use y assms(4) in simp_all)
  have "\<exists>n. days_to_next_birthday c today = Inr n"
    using 1 2 assms(5)
    by (simp add: days_to_next_birthday_def replace_year_def datetime_ymd_def)
  then show ?thesis
    using days_to_next_birthday_range[OF vb vt] by blast
qed

text \<open>
  Claim C9, for a contact born on 29 February 2000, a date that \<open>ContactModel\<close> accepts:
  read on 1 March 2023 the property raises \<open>ValueError\<close> (2023 has no 29 February), and
  read on 1 June 2024 it raises \<open>ValueError\<close> as well (the birthday of 2024 has passed,
  and 2025 has no 29 February). No integer is returned.
\<close>

theorem C9_feb29_raises:
  "birthday contact_feb29 =
     \<lparr>year = 2000, month = 2, day = 29, hour = 0, minute = 0, second = 0, microsecond = 0,
      tzinfo = None\<rparr>
   \<and> check_date_fields 2000 2 29
   \<and> days_to_next_birthday contact_feb29 mar1 = Inl ValueError
   \<and> days_to_next_birthday contact_feb29 jun1 = Inl ValueError"
  by (simp add: days_to_next_birthday_def replace_year_def datetime_ymd_def
      check_date_fields_def days_in_month_def is_leap_def datetime_fields_def
      contact_feb29_def contact_jan4_def mar1_def jun1_def)

end
